theory Spec2Isabelle
  imports Complex_Main "HOL-Library.AList"
begin

section \<open>Python values\<close>

text \<open>
  The values that flow through the vehicle model: JSON-like documents returned by the
  backend (\<open>None\<close>, booleans, numbers, strings, sequences, mappings), timezone-aware
  instants (\<open>datetime\<close>, here microseconds since the epoch) and plain objects with data
  attributes.  A mapping is an association list in insertion order; lookups take the first
  binding of a key, and \<open>AList.update\<close> overwrites in place or appends, as a Python
  \<open>dict\<close> does.  A float is represented by the rational number it denotes.
\<close>

datatype pyval =
    PNone
  | PBool bool
  | PInt int
  | PFloat rat
  | PStr string
  | PTime int
  | PList "pyval list"
  | PDict "(string \<times> pyval) list"
  | PObj "(string \<times> pyval) list"

text \<open>
  The message of a raised \<open>Exception\<close> is kept as the pieces of its f-string: literal text
  and the values interpolated between.
\<close>

datatype fragment = Lit string | Val pyval

datatype error =
    KeyError string
  | TypeError
  | AttributeError
  | OverflowError
  | PyException "fragment list"

type_synonym pydict = "(string \<times> pyval) list"

text \<open>Truth value testing (\<open>if x:\<close>, \<open>not x\<close>).\<close>

fun truthy :: "pyval \<Rightarrow> bool" where
  "truthy PNone = False"
| "truthy (PBool b) = b"
| "truthy (PInt i) = (i \<noteq> 0)"
| "truthy (PFloat r) = (r \<noteq> 0)"
| "truthy (PStr s) = (s \<noteq> [])"
| "truthy (PTime t) = True"
| "truthy (PList xs) = (xs \<noteq> [])"
| "truthy (PDict kvs) = (kvs \<noteq> [])"
| "truthy (PObj attrs) = True"

fun is_dict :: "pyval \<Rightarrow> bool" where
  "is_dict (PDict kvs) = True"
| "is_dict v = False"

text \<open>
  \<open>src[key]\<close> with a string key: a mapping raises \<open>KeyError\<close> on a missing key, every
  other value raises \<open>TypeError\<close> (not subscriptable, or indices must be integers).
\<close>

fun py_getitem :: "pyval \<Rightarrow> string \<Rightarrow> error + pyval" where
  "py_getitem (PDict kvs) k =
     (case map_of kvs k of None \<Rightarrow> Inl (KeyError k) | Some v \<Rightarrow> Inr v)"
| "py_getitem v k = Inl TypeError"

text \<open>
  \<open>d.get(key, default)\<close>: only a mapping has the method; on any other value the
  attribute lookup of \<open>get\<close> raises \<open>AttributeError\<close>.
\<close>

definition dict_get :: "pydict \<Rightarrow> string \<Rightarrow> pyval \<Rightarrow> pyval" where
  "dict_get d k dflt = (case map_of d k of None \<Rightarrow> dflt | Some v \<Rightarrow> v)"

fun py_get :: "pyval \<Rightarrow> string \<Rightarrow> pyval \<Rightarrow> error + pyval" where
  "py_get (PDict kvs) k dflt = Inr (dict_get kvs k dflt)"
| "py_get v k dflt = Inl AttributeError"

text \<open>\<open>x == "text"\<close> and \<open>x == n\<close> for an integer literal (numbers compare by value).\<close>

definition py_eq_str :: "pyval \<Rightarrow> string \<Rightarrow> bool" where
  "py_eq_str v s = (v = PStr s)"

fun py_eq_int :: "pyval \<Rightarrow> int \<Rightarrow> bool" where
  "py_eq_int (PInt j) i = (j = i)"
| "py_eq_int (PBool b) i = ((if b then 1 else 0) = i)"
| "py_eq_int (PFloat r) i = (r = of_int i)"
| "py_eq_int v i = False"

text \<open>A dict display \<open>{k1: v1, k2: v2, ...}\<close>: a repeated key keeps its place and takes the later value.\<close>

definition dict_of :: "(string \<times> pyval) list \<Rightarrow> pydict" where
  "dict_of kvs = foldl (\<lambda>d (k, v). AList.update k v d) [] kvs"

text \<open>
  \<open>obj.name\<close> for a data attribute: only an object carries data attributes; the builtin
  values have none under the names the code reads.
\<close>

fun py_getattr :: "pyval \<Rightarrow> string \<Rightarrow> error + pyval" where
  "py_getattr (PObj attrs) name =
     (case map_of attrs name of None \<Rightarrow> Inl AttributeError | Some v \<Rightarrow> Inr v)"
| "py_getattr v name = Inl AttributeError"

section \<open>Path queries (utilities)\<close>

text \<open>\<open>s.split(".")\<close>: never empty; the empty string splits into one empty segment.\<close>

fun split_dot :: "string \<Rightarrow> string list" where
  "split_dot [] = [[]]"
| "split_dot (c # cs) =
     (if c = CHR ''.'' then [] # split_dot cs
      else (case split_dot cs of
              [] \<Rightarrow> [[c]]
            | w # ws \<Rightarrow> (c # w) # ws))"

text \<open>The \<open>path\<close> argument: \<open>None\<close>, a dotted string, or a list of segments.\<close>

datatype path = PathNone | PathStr string | PathList "string list"

fun path_truthy :: "path \<Rightarrow> bool" where
  "path_truthy PathNone = False"
| "path_truthy (PathStr s) = (s \<noteq> [])"
| "path_truthy (PathList ks) = (ks \<noteq> [])"

text \<open>The segments of a path after \<open>if isinstance(path, str): path = path.split(".")\<close>.\<close>

fun path_segments :: "path \<Rightarrow> string list" where
  "path_segments PathNone = []"
| "path_segments (PathStr s) = (if s = [] then [] else split_dot s)"
| "path_segments (PathList ks) = ks"

lemma split_dot_not_Nil: "split_dot s \<noteq> []"
  by (induction s) (auto split: list.splits)

function find_path :: "pyval \<Rightarrow> path \<Rightarrow> error + pyval" where
  "find_path src path =
     (if \<not> path_truthy path then Inr src
      else
        let segs = path_segments path in
        (case py_getitem src (hd segs) of
           Inl e \<Rightarrow> Inl e
         | Inr v \<Rightarrow> find_path v (PathList (tl segs))))"
  by pat_completeness auto
termination
proof (relation "measure (\<lambda>(src, path). length (path_segments path))")
  show "wf (measure (\<lambda>(src, path). length (path_segments path)))" by simp
next
  fix src :: pyval and path :: path and segs v
  assume t: "\<not> \<not> path_truthy path" and s: "segs = path_segments path"
  have "segs \<noteq> []"
    using t s split_dot_not_Nil by (cases path) auto
  then show "((v, PathList (tl segs)), (src, path))
      \<in> measure (\<lambda>(src, path). length (path_segments path))"
    using s by (cases segs) auto
qed

declare find_path.simps [simp del]

definition is_valid_path :: "pyval \<Rightarrow> path \<Rightarrow> error + bool" where
  "is_valid_path src path =
     (case find_path src path of
        Inr v \<Rightarrow> Inr True
      | Inl (KeyError k) \<Rightarrow> Inr False
      | Inl e \<Rightarrow> Inl e)"

section \<open>The vehicle, its clock and its connection\<close>

text \<open>
  The identifiers of class \<open>Services\<close> (module \<open>vw_const\<close>) are constants of the
  deployment; the model takes them as a parameter.
\<close>

record Services =
  ACCESS :: string
  TRIP_STATISTICS :: string
  MEASUREMENTS :: string
  HONK_AND_FLASH :: string
  PARKING_POSITION :: string
  CLIMATISATION :: string
  CHARGING :: string
  PARAMETERS :: string

text \<open>
  The calls a vehicle makes on its connection.  A connection answers a call with a value or
  raises; its answer may depend on the calls made before.
\<close>

datatype call =
    GetOperationList string
  | GetRequestStatus string pyval
  | SetLock string bool pyval
  | SetClimaterSettings string pyval
  | SetClimater string pyval bool
  | SetWindowHeater string bool
  | SetCharging string bool
  | SetChargingSettings string pyval

type_synonym connection = "call list \<Rightarrow> call \<Rightarrow> error + pyval"

text \<open>
  The entries of \<open>Vehicle\<close> that the modelled methods read and write, together with the
  environment they run in: \<open>clock\<close> is what \<open>datetime.now(timezone.utc)\<close> returns
  (microseconds), \<open>calls\<close> the calls made on the connection so far, oldest first.
\<close>

record vehicle =
  url :: string
  discovered :: bool
  states :: pydict
  requests :: pydict
  services :: pydict
  clock :: int
  calls :: "call list"

definition minutes :: "int \<Rightarrow> int" where
  "minutes n = n * 60000000"

definition seconds :: "int \<Rightarrow> int" where
  "seconds n = n * 1000000"

text \<open>\<open>await asyncio.sleep(n)\<close> lets \<open>n\<close> seconds pass.\<close>

definition sleep :: "int \<Rightarrow> vehicle \<Rightarrow> vehicle" where
  "sleep n v = v\<lparr>clock := clock v + seconds n\<rparr>"

text \<open>\<open>await self._connection.method(...)\<close>: the call is recorded and answered.\<close>

definition backend :: "connection \<Rightarrow> call \<Rightarrow> vehicle \<Rightarrow> (error + pyval) \<times> vehicle" where
  "backend conn c v = (conn (calls v) c, v\<lparr>calls := calls v @ [c]\<rparr>)"

text \<open>\<open>self._requests[key] = value\<close>\<close>

definition set_request :: "string \<Rightarrow> pyval \<Rightarrow> vehicle \<Rightarrow> vehicle" where
  "set_request key val v = v\<lparr>requests := AList.update key val (requests v)\<rparr>"

text \<open>\<open>Vehicle.__init__\<close>, constructed at time \<open>now\<close>.\<close>

definition init_vehicle :: "Services \<Rightarrow> string \<Rightarrow> int \<Rightarrow> vehicle" where
  "init_vehicle S u now =
     \<lparr>url = u,
      discovered = False,
      states = [],
      requests = dict_of
        [(''departuretimer'', PDict [(''status'', PStr []), (''timestamp'', PTime now)]),
         (''batterycharge'', PDict [(''status'', PStr []), (''timestamp'', PTime now)]),
         (''climatisation'', PDict [(''status'', PStr []), (''timestamp'', PTime now)]),
         (''refresh'', PDict [(''status'', PStr []), (''timestamp'', PTime now)]),
         (''lock'', PDict [(''status'', PStr []), (''timestamp'', PTime now)]),
         (''preheater'', PDict [(''status'', PStr []), (''timestamp'', PTime now)]),
         (''remaining'', PInt (- 1)),
         (''latest'', PStr []),
         (''state'', PStr [])],
      services = dict_of
        [(ACCESS S, PDict [(''active'', PBool False)]),
         (TRIP_STATISTICS S, PDict [(''active'', PBool False)]),
         (MEASUREMENTS S, PDict [(''active'', PBool False)]),
         (HONK_AND_FLASH S, PDict [(''active'', PBool False)]),
         (PARKING_POSITION S, PDict [(''active'', PBool False)]),
         (CLIMATISATION S, PDict [(''active'', PBool False)]),
         (CHARGING S, PDict [(''active'', PBool False)]),
         (PARAMETERS S, PDict [])],
      clock = now,
      calls = []\<rparr>"

section \<open>The request ledger and the action state machine\<close>

text \<open>
  \<open>Vehicle._in_progress\<close>.  \<open>timestamp + timedelta(minutes=3)\<close> raises \<open>TypeError\<close> unless
  the timestamp is a \<open>datetime\<close>.  \<open>pop("id")\<close> changes the record held in \<open>_requests\<close>.
\<close>

definition in_progress :: "string \<Rightarrow> int \<Rightarrow> vehicle \<Rightarrow> (error + bool) \<times> vehicle" where
  "in_progress topic unknown_offset v =
     (let entry = dict_get (requests v) topic (PDict []) in
      case py_get entry ''id'' (PBool False) of
        Inl e \<Rightarrow> (Inl e, v)
      | Inr ident \<Rightarrow>
          if truthy ident then
            (case py_get entry ''timestamp'' (PTime (clock v - minutes unknown_offset)) of
               Inl e \<Rightarrow> (Inl e, v)
             | Inr (PTime timestamp) \<Rightarrow>
                 if timestamp + minutes 3 < clock v then
                   (case entry of
                      PDict entries \<Rightarrow>
                        (Inr False, set_request topic (PDict (AList.delete ''id'' entries)) v)
                    | _ \<Rightarrow> (Inl AttributeError, v))
                 else (Inr True, v)
             | Inr _ \<Rightarrow> (Inl TypeError, v))
          else (Inr False, v))"

text \<open>
  \<open>Vehicle.wait_for_request\<close>.  The message of the timeout branch reads
  \<open>request.requestId\<close> before anything is returned, outside the \<open>try\<close>; the recursive call
  sits inside the \<open>try\<close> of its caller, whose handler turns any exception into the status
  \<open>"Exception"\<close>.  The function is recursive on an integer that only reaches the exit at
  \<open>1\<close>, so a run that never returns is the value \<open>None\<close>.
\<close>

partial_function (option) wait_for_request ::
  "connection \<Rightarrow> pyval \<Rightarrow> int \<Rightarrow> vehicle \<Rightarrow> ((error + pyval) \<times> vehicle) option" where
  "wait_for_request conn request retry_count v =
     (if retry_count - 1 = 0 then
        (case py_getattr request ''requestId'' of
           Inl e \<Rightarrow> Some (Inl e, v)
         | Inr ident \<Rightarrow> Some (Inr (PStr ''Timeout''), v))
      else
        (case backend conn (GetRequestStatus (url v) request) v of
           (Inl e, v1) \<Rightarrow> Some (Inr (PStr ''Exception''), v1)
         | (Inr status, v1) \<Rightarrow>
             if py_eq_str status ''In Progress'' then
               Option.bind
                 (wait_for_request conn request (retry_count - 1)
                    (sleep 10 (set_request ''state'' status v1)))
                 (\<lambda>(r, v2). case r of
                    Inl e \<Rightarrow> Some (Inr (PStr ''Exception''), v2)
                  | Inr result \<Rightarrow> Some (Inr result, v2))
             else Some (Inr status, set_request ''state'' status v1)))"

text \<open>\<open>Vehicle._handle_response\<close>; \<open>error_msg\<close> is \<open>None\<close> or a message.\<close>

definition handle_response ::
  "connection \<Rightarrow> pyval \<Rightarrow> string \<Rightarrow> fragment list option \<Rightarrow> vehicle
     \<Rightarrow> ((error + bool) \<times> vehicle) option" where
  "handle_response conn response topic error_msg v =
     (if \<not> truthy response then
        Some (Inl (PyException
                (case error_msg of
                   Some m \<Rightarrow> m
                 | None \<Rightarrow> [Lit ''Failed to perform '', Lit topic, Lit '' action''])),
              set_request topic
                (PDict [(''status'', PStr ''Failed''), (''timestamp'', PTime (clock v))]) v)
      else
        (case response of
           PDict entries \<Rightarrow>
             let remaining = dict_get entries ''rate_limit_remaining'' (PInt (- 1));
                 v1 = (if \<not> py_eq_int remaining (- 1)
                       then set_request ''remaining'' remaining v else v);
                 v2 = set_request topic
                        (PDict [(''timestamp'', PTime (clock v1)),
                                (''status'', dict_get entries ''state'' (PStr ''Unknown'')),
                                (''id'', dict_get entries ''id'' (PInt 0))]) v1
             in
               if py_eq_str (dict_get entries ''state'' PNone) ''Throttled'' then
                 Some (Inr True,
                       set_request topic
                         (PDict [(''status'', PStr ''Throttled''),
                                 (''timestamp'', PTime (clock v2))]) v2)
               else
                 Option.bind (wait_for_request conn (dict_get entries ''id'' (PInt 0)) 18 v2)
                   (\<lambda>(r, v3). case r of
                      Inl e \<Rightarrow> Some (Inl e, v3)
                    | Inr status \<Rightarrow>
                        Some (Inr True,
                              set_request topic
                                (PDict [(''status'', status),
                                        (''timestamp'', PTime (clock v3))]) v3))
         | _ \<Rightarrow> Some (Inl AttributeError, v)))"


text \<open>
  \<open>Vehicle.set_lock\<close>.  Everything from the submission on runs inside \<open>try\<close>; the handler
  records the status \<open>"Exception"\<close> under \<open>"lock"\<close> and control falls through to the final
  \<open>raise\<close>.
\<close>

definition lock_failed :: "vehicle \<Rightarrow> (error + bool) \<times> vehicle" where
  "lock_failed v =
     (Inl (PyException [Lit ''Lock action failed'']),
      set_request ''lock''
        (PDict [(''status'', PStr ''Exception''), (''timestamp'', PTime (clock v))]) v)"


section \<open>Climatisation target temperature\<close>

definition attrs :: "vehicle \<Rightarrow> pyval" where
  "attrs v = PDict (states v)"

text \<open>Python's short-circuit \<open>and\<close> and \<open>or\<close> over properties that return a bool or raise.\<close>

definition py_and :: "error + bool \<Rightarrow> error + bool \<Rightarrow> error + bool" where
  "py_and a b = (case a of Inl e \<Rightarrow> Inl e | Inr x \<Rightarrow> if x then b else Inr False)"

definition py_or :: "error + bool \<Rightarrow> error + bool \<Rightarrow> error + bool" where
  "py_or a b = (case a of Inl e \<Rightarrow> Inl e | Inr x \<Rightarrow> if x then Inr True else b)"

definition is_climatisation_supported :: "Services \<Rightarrow> vehicle \<Rightarrow> error + bool" where
  "is_climatisation_supported S v =
     is_valid_path (attrs v)
       (PathStr (CLIMATISATION S @ ''.climatisationStatus.value.climatisationState''))"

definition is_climatisation_target_temperature_supported ::
  "Services \<Rightarrow> vehicle \<Rightarrow> error + bool" where
  "is_climatisation_target_temperature_supported S v =
     is_valid_path (attrs v)
       (PathStr (CLIMATISATION S @ ''.climatisationSettings.value.targetTemperature_C''))"

definition is_climatisation_without_external_power_supported ::
  "Services \<Rightarrow> vehicle \<Rightarrow> error + bool" where
  "is_climatisation_without_external_power_supported S v =
     is_valid_path (attrs v)
       (PathStr (CLIMATISATION S
          @ ''.climatisationSettings.value.climatisationWithoutExternalPower''))"

definition climatisation_without_external_power :: "Services \<Rightarrow> vehicle \<Rightarrow> error + pyval" where
  "climatisation_without_external_power S v =
     find_path (attrs v)
       (PathStr (CLIMATISATION S
          @ ''.climatisationSettings.value.climatisationWithoutExternalPower''))"

definition is_electric_climatisation_supported :: "Services \<Rightarrow> vehicle \<Rightarrow> error + bool" where
  "is_electric_climatisation_supported S v =
     py_and (is_climatisation_supported S v)
       (py_and (is_climatisation_target_temperature_supported S v)
          (is_climatisation_without_external_power_supported S v))"

definition is_auxiliary_climatisation_supported :: "vehicle \<Rightarrow> error + bool" where
  "is_auxiliary_climatisation_supported v = Inr False"

text \<open>
  The temperature argument is a number: an \<open>int\<close> or a finite \<open>float\<close>, the float given
  by the rational it denotes.  \<open>float(temperature)\<close> leaves a float as it is and converts
  an int to the nearest double, ties to even; it raises \<open>OverflowError\<close> when that
  double would lie beyond the largest one, that is when the rounded magnitude reaches
  \<open>2 ^ 1024\<close>.
\<close>

datatype number = NInt int | NFloat rat

text \<open>The number of binary digits of a natural number.\<close>

fun bitlen :: "nat \<Rightarrow> nat" where
  "bitlen n = (if n = 0 then 0 else Suc (bitlen (n div 2)))"

declare bitlen.simps [simp del]

text \<open>
  The magnitude of an int rounded to 53 significant bits: below \<open>2 ^ 53\<close> nothing is
  lost; above, the low \<open>e\<close> bits are rounded away, to nearest and on a tie to the even
  neighbour.
\<close>

definition round_to_double :: "nat \<Rightarrow> nat" where
  "round_to_double n =
     (if n < 2 ^ 53 then n
      else
        let e = bitlen n - 53;
            q = n div 2 ^ e;
            r = n mod 2 ^ e
        in (if 2 ^ e < 2 * r \<or> (2 * r = 2 ^ e \<and> odd q) then q + 1 else q) * 2 ^ e)"

fun py_float :: "number \<Rightarrow> error + rat" where
  "py_float (NInt i) =
     (if 2 ^ 1024 \<le> round_to_double (nat \<bar>i\<bar>) then Inl OverflowError
      else Inr (of_int (sgn i * int (round_to_double (nat \<bar>i\<bar>)))))"
| "py_float (NFloat r) = Inr r"

text \<open>The number as a Python value, and the rational it denotes.\<close>

fun number_val :: "number \<Rightarrow> pyval" where
  "number_val (NInt i) = PInt i"
| "number_val (NFloat r) = PFloat r"

fun number_value :: "number \<Rightarrow> rat" where
  "number_value (NInt i) = of_int i"
| "number_value (NFloat r) = r"

text \<open>
  \<open>Vehicle.set_climatisation_temp\<close>.  An exception of \<open>float(temperature)\<close> in the range
  test leaves the method as it is.
\<close>

definition set_climatisation_temp ::
  "Services \<Rightarrow> connection \<Rightarrow> number \<Rightarrow> vehicle \<Rightarrow> ((error + bool) \<times> vehicle) option" where
  "set_climatisation_temp S conn temperature v =
     (case py_or (is_electric_climatisation_supported S v)
                 (is_auxiliary_climatisation_supported v) of
        Inl e \<Rightarrow> Some (Inl e, v)
      | Inr supported \<Rightarrow>
          if supported then
            (case py_float temperature of
               Inl e \<Rightarrow> Some (Inl e, v)
             | Inr target \<Rightarrow>
                 if 31 / 2 \<le> target \<and> target \<le> 30 then
                   (case climatisation_without_external_power S v of
                      Inl e \<Rightarrow> Some (Inl e, v)
                    | Inr without_external_power \<Rightarrow>
                        (case backend conn
                                (SetClimaterSettings (url v)
                                   (PDict [(''targetTemperature'', PFloat target),
                                           (''targetTemperatureUnit'', PStr ''celsius''),
                                           (''climatisationWithoutExternalPower'',
                                              without_external_power)]))
                                (set_request ''latest'' (PStr ''Climatisation'') v) of
                           (Inl e, v1) \<Rightarrow> Some (Inl e, v1)
                         | (Inr response, v1) \<Rightarrow>
                             handle_response conn response ''climatisation''
                               (Some [Lit ''Failed to set temperature'']) v1))
                 else
                   Some (Inl (PyException
                           [Lit ''Set climatisation target temp to '',
                            Val (number_val temperature), Lit '' is not supported.'']), v))
          else Some (Inl (PyException [Lit ''No climatisation support.'']), v))"

section \<open>Capability discovery\<close>

text \<open>\<open>d.update(other)\<close> for two mappings.\<close>

definition dict_update :: "pydict \<Rightarrow> pydict \<Rightarrow> pydict" where
  "dict_update d other = fold (\<lambda>(k, x) acc. AList.update k x acc) other d"

text \<open>\<open>for x in value\<close>: the elements of a sequence, the keys of a mapping, the characters of a string.\<close>

fun py_iter :: "pyval \<Rightarrow> error + pyval list" where
  "py_iter (PList xs) = Inr xs"
| "py_iter (PDict kvs) = Inr (map (\<lambda>(k, x). PStr k) kvs)"
| "py_iter (PStr s) = Inr (map (\<lambda>c. PStr [c]) s)"
| "py_iter v = Inl TypeError"

text \<open>
  The loop over \<open>service.get("operations", []).keys()\<close>, collecting
  \<open>operation.get("id", None)\<close> of every operation.
\<close>

fun operation_ids :: "pydict \<Rightarrow> string list \<Rightarrow> error + pyval list" where
  "operation_ids ops [] = Inr []"
| "operation_ids ops (operation_id # rest) =
     (case py_get (dict_get ops operation_id PNone) ''id'' PNone of
        Inl e \<Rightarrow> Inl e
      | Inr ident \<Rightarrow>
          (case operation_ids ops rest of
             Inl e \<Rightarrow> Inl e
           | Inr idents \<Rightarrow> Inr (ident # idents)))"

text \<open>
  The \<open>data\<close> built for one entry of the capability listing, with the name read from the
  entry's own \<open>"id"\<close>; an exception leaves through \<open>Inl\<close>.
\<close>

definition service_data :: "pyval \<Rightarrow> error + (pyval \<times> pydict)" where
  "service_data service =
     (case service of
        PDict sv \<Rightarrow>
          let service_name = dict_get sv ''id'' PNone in
          if truthy (dict_get sv ''isEnabled'' (PBool False)) then
            let data0 = [(''active'', PBool True)];
                data1 = (if truthy (dict_get sv ''expirationDate'' (PBool False))
                         then AList.update ''expiration'' (dict_get sv ''expirationDate'' PNone) data0
                         else data0)
            in
              (case (if truthy (dict_get sv ''operations'' (PBool False)) then
                       (case dict_get sv ''operations'' (PList []) of
                          PDict ops \<Rightarrow>
                            (case operation_ids ops (map fst ops) of
                               Inl e \<Rightarrow> Inl e
                             | Inr idents \<Rightarrow> Inr (AList.update ''operations'' (PList idents) data1))
                        | _ \<Rightarrow> Inl AttributeError)
                     else Inr data1) of
                 Inl e \<Rightarrow> Inl e
               | Inr data2 \<Rightarrow>
                   if truthy (dict_get sv ''parameters'' (PBool False)) then
                     (case py_iter (dict_get sv ''parameters'' (PList [])) of
                        Inl e \<Rightarrow> Inl e
                      | Inr params \<Rightarrow>
                          Inr (service_name, AList.update ''parameters'' (PList params) data2))
                   else Inr (service_name, data2))
          else Inr (service_name, [(''active'', PBool False)])
      | _ \<Rightarrow> Inl AttributeError)"

text \<open>
  \<open>self._services[service_name].update(data)\<close>: the name must be a key of \<open>_services\<close>
  and the entry a mapping.  The keys are strings, so a name that is no string is none:
  \<open>KeyError\<close> (of which the argument is kept for a string only), or \<open>TypeError\<close> for a
  sequence or a mapping, which cannot be hashed.
\<close>

definition update_service :: "pyval \<Rightarrow> pydict \<Rightarrow> vehicle \<Rightarrow> error + vehicle" where
  "update_service service_name data v =
     (case service_name of
        PStr name \<Rightarrow>
          (case map_of (services v) name of
             None \<Rightarrow> Inl (KeyError name)
           | Some (PDict old) \<Rightarrow>
               Inr (v\<lparr>services := AList.update name (PDict (dict_update old data)) (services v)\<rparr>)
           | Some _ \<Rightarrow> Inl AttributeError)
      | PList xs \<Rightarrow> Inl TypeError
      | PDict kvs \<Rightarrow> Inl TypeError
      | _ \<Rightarrow> Inl (KeyError []))"

text \<open>
  The body of the loop over the listing's keys: \<open>try\<close> the entry, and on any exception
  log a warning and go on with the next key.
\<close>

definition discover_service :: "pydict \<Rightarrow> string \<Rightarrow> vehicle \<Rightarrow> vehicle" where
  "discover_service capabilities_list service_id v =
     (if service_id \<in> set (map fst (services v)) then
        (case service_data (dict_get capabilities_list service_id PNone) of
           Inl e \<Rightarrow> v
         | Inr (service_name, data) \<Rightarrow>
             (case update_service service_name data v of
                Inl e \<Rightarrow> v
              | Inr v1 \<Rightarrow> v1))
      else v)"

text \<open>
  Modelled from the spec: the value that \<open>getOperationList\<close> of the connection returns
  (the connection module is not among the sources): a flat parameter bag and a capability
  listing from service identifier to entry, both mappings.  A key missing from the reply
  is the empty mapping, as \<open>capabilities_response.get(key, {})\<close> reads it.  The entries of
  the listing are arbitrary values.
\<close>

record operation_list =
  parameters :: pydict
  capabilities :: pydict

type_synonym operations = "call list \<Rightarrow> string \<Rightarrow> error + operation_list"

text \<open>\<open>Vehicle.discover\<close>; the call on the connection is recorded like every other.\<close>

definition discover :: "Services \<Rightarrow> operations \<Rightarrow> vehicle \<Rightarrow> (error + unit) \<times> vehicle" where
  "discover S getOperationList v =
     (let v1 = v\<lparr>calls := calls v @ [GetOperationList (url v)]\<rparr> in
      case getOperationList (calls v) (url v) of
        Inl e \<Rightarrow> (Inl e, v1)
      | Inr capabilities_response \<Rightarrow>
          let parameters_list = parameters capabilities_response;
              capabilities_list = capabilities capabilities_response
          in
            (case (if parameters_list \<noteq> [] then
                     (case map_of (services v1) (PARAMETERS S) of
                        None \<Rightarrow> Inl (KeyError (PARAMETERS S))
                      | Some (PDict old) \<Rightarrow>
                          Inr (v1\<lparr>services :=
                                 AList.update (PARAMETERS S)
                                   (PDict (dict_update old parameters_list)) (services v1)\<rparr>)
                      | Some _ \<Rightarrow> Inl AttributeError)
                   else Inr v1) of
               Inl e \<Rightarrow> (Inl e, v1)
             | Inr v2 \<Rightarrow>
                 if capabilities_list \<noteq> [] then
                   (Inr (), (fold (discover_service capabilities_list)
                               (map fst capabilities_list) v2)\<lparr>discovered := True\<rparr>)
                 else (Inr (), v2\<lparr>discovered := True\<rparr>)))"

text \<open>
  Whether a service is active, as the callers read it:
  \<open>self._services.get(service, {}).get("active", False)\<close>.
\<close>

definition service_active :: "string \<Rightarrow> vehicle \<Rightarrow> error + pyval" where
  "service_active service v =
     py_get (dict_get (services v) service (PDict [])) ''active'' (PBool False)"

section \<open>Observations used in the statements\<close>

text \<open>A connection whose every answer is \<open>"In Progress"\<close>.\<close>

definition always_in_progress :: connection where
  "always_in_progress h c = Inr (PStr ''In Progress'')"

text \<open>The number of status queries among the calls made so far.\<close>

fun is_status_query :: "call \<Rightarrow> bool" where
  "is_status_query (GetRequestStatus u r) = True"
| "is_status_query c = False"

definition status_queries :: "vehicle \<Rightarrow> nat" where
  "status_queries v = length (filter is_status_query (calls v))"

text \<open>The vehicle after \<open>n\<close> polls that were each answered \<open>"In Progress"\<close>.\<close>

fun polled :: "nat \<Rightarrow> pyval \<Rightarrow> vehicle \<Rightarrow> vehicle" where
  "polled 0 request v = v"
| "polled (Suc n) request v =
     polled n request
       (sleep 10 (set_request ''state'' (PStr ''In Progress'')
          (v\<lparr>calls := calls v @ [GetRequestStatus (url v) request]\<rparr>)))"

text \<open>
  What the exit at budget zero yields after \<open>n\<close> polls: the status \<open>"Timeout"\<close> when the
  request has a \<open>requestId\<close>; otherwise the \<open>AttributeError\<close> of the log message, which
  the caller's handler (there is one as soon as \<open>n > 0\<close>) turns into \<open>"Exception"\<close>.
\<close>

definition timeout_outcome :: "pyval \<Rightarrow> nat \<Rightarrow> error + pyval" where
  "timeout_outcome request n =
     (case py_getattr request ''requestId'' of
        Inl e \<Rightarrow> if n = 0 then Inl e else Inr (PStr ''Exception'')
      | Inr ident \<Rightarrow> Inr (PStr ''Timeout''))"

text \<open>Service identifiers and a freshly constructed vehicle for the concrete instances below.\<close>

definition demo_services :: Services where
  "demo_services =
     \<lparr>ACCESS = ''access'', TRIP_STATISTICS = ''tripStatistics'',
      MEASUREMENTS = ''measurements'', HONK_AND_FLASH = ''honkAndFlash'',
      PARKING_POSITION = ''parkingPosition'', CLIMATISATION = ''climatisation'',
      CHARGING = ''charging'', PARAMETERS = ''parameters''\<rparr>"

definition demo_vehicle :: vehicle where
  "demo_vehicle = init_vehicle demo_services ''WVWZZZ3HZPK002581'' 0"

text \<open>
  The status recorded for a topic, read the way the \<open>*_action_status\<close> properties read it:
  \<open>self._requests.get(topic, {}).get("status", "None")\<close>.
\<close>

definition request_status :: "string \<Rightarrow> vehicle \<Rightarrow> error + pyval" where
  "request_status topic v =
     py_get (dict_get (requests v) topic (PDict [])) ''status'' (PStr ''None'')"

text \<open>The topic's record holds no truthy id: the test that opens \<open>_in_progress\<close> fails.\<close>

definition no_pending :: "string \<Rightarrow> vehicle \<Rightarrow> bool" where
  "no_pending topic v =
     (case py_get (dict_get (requests v) topic (PDict [])) ''id'' (PBool False) of
        Inl e \<Rightarrow> False
      | Inr ident \<Rightarrow> \<not> truthy ident)"

text \<open>What polling may change: the calls made (status queries only) and the key \<open>"state"\<close>.\<close>

definition poll_frame :: "vehicle \<Rightarrow> vehicle \<Rightarrow> bool" where
  "poll_frame v v' \<longleftrightarrow>
     url v' = url v \<and> services v' = services v \<and> states v' = states v
     \<and> discovered v' = discovered v
     \<and> (\<exists>extra. calls v' = calls v @ extra \<and> list_all is_status_query extra)
     \<and> (\<forall>k. k \<noteq> ''state'' \<longrightarrow> map_of (requests v') k = map_of (requests v) k)"

text \<open>The exception \<open>set_climatisation_temp\<close> raises for a temperature out of range.\<close>

definition temperature_rejected :: "number \<Rightarrow> error" where
  "temperature_rejected temperature =
     PyException [Lit ''Set climatisation target temp to '',
                  Val (number_val temperature), Lit '' is not supported.'']"

text \<open>The service has an entry in \<open>_services\<close>, and the entry is a mapping.\<close>

definition service_entry :: "string \<Rightarrow> vehicle \<Rightarrow> bool" where
  "service_entry s v = (case map_of (services v) s of Some (PDict old) \<Rightarrow> True | _ \<Rightarrow> False)"

text \<open>No entry of the listing other than the one keyed \<open>s\<close> names \<open>s\<close> as its id.\<close>

definition names_only_itself :: "string \<Rightarrow> pydict \<Rightarrow> bool" where
  "names_only_itself s caps =
     list_all (\<lambda>(k, x). k = s \<or> py_get x ''id'' PNone \<noteq> Inr (PStr s)) caps"

subsection \<open>The steps of a submission\<close>


text \<open>
  The stations of \<open>_handle_response\<close>: the record written for a falsy response; the
  vehicle once the quota and the pending record, with the response's id, are written; the
  terminal status, \<open>"Throttled"\<close> at once or else what \<open>wait_for_request\<close> returns; the
  record written last, the terminal status with a fresh timestamp.
\<close>

definition failed_record :: "string \<Rightarrow> vehicle \<Rightarrow> vehicle" where
  "failed_record topic v =
     set_request topic
       (PDict [(''status'', PStr ''Failed''), (''timestamp'', PTime (clock v))]) v"

definition pending_record :: "string \<Rightarrow> pydict \<Rightarrow> vehicle \<Rightarrow> vehicle" where
  "pending_record topic entries v =
     (let remaining = dict_get entries ''rate_limit_remaining'' (PInt (- 1));
          v1 = (if \<not> py_eq_int remaining (- 1)
                then set_request ''remaining'' remaining v else v)
      in set_request topic
           (PDict [(''timestamp'', PTime (clock v1)),
                   (''status'', dict_get entries ''state'' (PStr ''Unknown'')),
                   (''id'', dict_get entries ''id'' (PInt 0))]) v1)"

definition terminal_status ::
  "connection \<Rightarrow> pydict \<Rightarrow> vehicle \<Rightarrow> ((error + pyval) \<times> vehicle) option" where
  "terminal_status conn entries v =
     (if py_eq_str (dict_get entries ''state'' PNone) ''Throttled''
      then Some (Inr (PStr ''Throttled''), v)
      else wait_for_request conn (dict_get entries ''id'' (PInt 0)) 18 v)"

definition completed_record :: "string \<Rightarrow> pyval \<Rightarrow> vehicle \<Rightarrow> vehicle" where
  "completed_record topic status v =
     set_request topic (PDict [(''status'', status), (''timestamp'', PTime (clock v))]) v"

text \<open>The message \<open>_handle_response\<close> raises with.\<close>

definition failure_message :: "string \<Rightarrow> fragment list option \<Rightarrow> fragment list" where
  "failure_message topic error_msg =
     (case error_msg of
        Some m \<Rightarrow> m
      | None \<Rightarrow> [Lit ''Failed to perform '', Lit topic, Lit '' action''])"

text \<open>
  The two statements on which \<open>set_charger\<close>, \<open>set_charging_settings\<close>,
  \<open>set_climatisation_temp\<close>, \<open>set_window_heating\<close>, \<open>set_battery_climatisation\<close> and
  \<open>set_climatisation\<close> all end, once their checks have passed:
  \<open>response = await self._connection.<call>(...)\<close> and
  \<open>return await self._handle_response(response=response, topic=..., error_msg=...)\<close>.
  An exception of the call leaves the action as it is.
\<close>

definition submit ::
  "connection \<Rightarrow> call \<Rightarrow> string \<Rightarrow> fragment list option \<Rightarrow> vehicle
     \<Rightarrow> ((error + bool) \<times> vehicle) option" where
  "submit conn c topic error_msg v =
     (case backend conn c v of
        (Inl e, v1) \<Rightarrow> Some (Inl e, v1)
      | (Inr response, v1) \<Rightarrow> handle_response conn response topic error_msg v1)"

text \<open>The record the exception handler of \<open>set_lock\<close> writes under \<open>"lock"\<close>.\<close>

definition exception_record :: "vehicle \<Rightarrow> vehicle" where
  "exception_record v =
     set_request ''lock''
       (PDict [(''status'', PStr ''Exception''), (''timestamp'', PTime (clock v))]) v"

subsection \<open>The states a vehicle can be in\<close>



subsection \<open>Concrete vehicles and connections\<close>

text \<open>A vehicle whose \<open>"lock"\<close> record holds a pending id, stamped at time 0.\<close>

definition pending_lock :: vehicle where
  "pending_lock =
     set_request ''lock''
       (PDict [(''timestamp'', PTime 0), (''status'', PStr ''In Progress''), (''id'', PInt 7)])
       demo_vehicle"


text \<open>A vehicle whose state document holds the climatisation status and settings.\<close>

definition climate_vehicle :: vehicle where
  "climate_vehicle =
     demo_vehicle\<lparr>states :=
       [(''climatisation'',
         PDict [(''climatisationStatus'',
                   PDict [(''value'', PDict [(''climatisationState'', PStr ''off'')])]),
                (''climatisationSettings'',
                   PDict [(''value'',
                      PDict [(''targetTemperature_C'', PInt 22),
                             (''climatisationWithoutExternalPower'', PBool False)])])])]\<rparr>"


definition accepting_backend :: connection where
  "accepting_backend h c =
     (case c of
        GetRequestStatus u r \<Rightarrow> Inr (PStr ''successful'')
      | _ \<Rightarrow> Inr (PDict [(''id'', PInt 7)]))"



text \<open>
  Capability listings with the one service \<open>access\<close>: one whose entry carries the id and
  is enabled or not, one whose entry is disabled and carries no id.  Two connections that
  list \<open>access\<close> enabled on the first call; on every later call the first lists it
  disabled, the second disabled without its id.
\<close>

definition listing :: "bool \<Rightarrow> operation_list" where
  "listing enabled =
     \<lparr>parameters = [],
      capabilities =
        [(''access'', PDict [(''id'', PStr ''access''), (''isEnabled'', PBool enabled)])]\<rparr>"

definition listing_without_id :: operation_list where
  "listing_without_id =
     \<lparr>parameters = [],
      capabilities = [(''access'', PDict [(''isEnabled'', PBool False)])]\<rparr>"

definition toggling_backend :: operations where
  "toggling_backend h u = Inr (listing (h = []))"

definition nameless_backend :: operations where
  "nameless_backend h u = Inr (if h = [] then listing True else listing_without_id)"

definition discovered_once :: vehicle where
  "discovered_once = snd (discover demo_services toggling_backend demo_vehicle)"

definition discovered_twice :: vehicle where
  "discovered_twice = snd (discover demo_services toggling_backend discovered_once)"

definition nameless_once :: vehicle where
  "nameless_once = snd (discover demo_services nameless_backend demo_vehicle)"

definition nameless_twice :: vehicle where
  "nameless_twice = snd (discover demo_services nameless_backend nameless_once)"

section \<open>Path queries as a walk\<close>

text \<open>Walking a list of segments, the loop that \<open>find_path\<close> unfolds to.\<close>

fun walk :: "pyval \<Rightarrow> string list \<Rightarrow> error + pyval" where
  "walk src [] = Inr src"
| "walk src (k # ks) =
     (case py_getitem src k of Inl e \<Rightarrow> Inl e | Inr v \<Rightarrow> walk v ks)"

lemma find_path_list: "find_path src (PathList ks) = walk src ks"
proof (induction ks arbitrary: src)
  case Nil
  show ?case by (simp add: find_path.simps)
next
  case (Cons k ks)
  show ?case
    by (subst find_path.simps) (simp add: Cons.IH split: sum.splits)
qed

lemma find_path_walk: "find_path src path = walk src (path_segments path)"
proof (cases "path_truthy path")
  case False
  then show ?thesis
    by (cases path) (simp_all add: find_path.simps)
next
  case True
  then have ne: "path_segments path \<noteq> []"
    using split_dot_not_Nil by (cases path) auto
  then obtain k ks where seg: "path_segments path = k # ks"
    by (cases "path_segments path") auto
  show ?thesis
    by (subst find_path.simps) (simp add: True seg find_path_list split: sum.splits)
qed

lemma walk_append:
  "walk src (ks @ ls) = (case walk src ks of Inl e \<Rightarrow> Inl e | Inr v \<Rightarrow> walk v ls)"
  by (induction ks arbitrary: src) (auto split: sum.splits)

lemma py_getitem_not_dict: "\<not> is_dict v \<Longrightarrow> py_getitem v k = Inl TypeError"
  by (cases v) auto

section \<open>Path queries: presence against lookup\<close>

text \<open>
  Claim C6, as amended.  Whenever \<open>find_path\<close> returns a value, \<open>is_valid_path\<close> returns
  true, also when the value is an explicit \<open>None\<close>; when \<open>find_path\<close> fails with the
  missing-key error, \<open>is_valid_path\<close> returns false.  Nothing is promised when
  \<open>find_path\<close> fails with another error.
\<close>

theorem is_valid_path_of_value:
  "(find_path d p = Inr x \<longrightarrow> is_valid_path d p = Inr True)
   \<and> (find_path d p = Inl (KeyError k) \<longrightarrow> is_valid_path d p = Inr False)"
  by (simp add: is_valid_path_def)

theorem is_valid_path_of_value_witness:
  "find_path (PDict [(''a'', PNone)]) (PathStr ''a'') = Inr PNone
   \<and> is_valid_path (PDict [(''a'', PNone)]) (PathStr ''a'') = Inr True
   \<and> find_path (PDict [(''a'', PNone)]) (PathStr ''b'') = Inl (KeyError ''b'')
   \<and> is_valid_path (PDict [(''a'', PNone)]) (PathStr ''b'') = Inr False"
  using is_valid_path_of_value [of "PDict [(''a'', PNone)]" "PathStr ''a''" PNone]
    is_valid_path_of_value [of "PDict [(''a'', PNone)]" "PathStr ''b''" _ "''b''"]
  by (simp add: find_path_walk)

text \<open>
  Claim C6 as stated fails: on the document \<open>{a: None}\<close> and the path \<open>a.b\<close>,
  \<open>find_path\<close> fails, but not with the missing-key error, and \<open>is_valid_path\<close> does not
  return true.
\<close>

theorem is_valid_path_null_parent_counterexample:
  "find_path (PDict [(''a'', PNone)]) (PathStr ''a.b'') = Inl TypeError
   \<and> is_valid_path (PDict [(''a'', PNone)]) (PathStr ''a.b'') = Inl TypeError"
  by (simp add: is_valid_path_def find_path_walk)

text \<open>
  Claim C10.  When a prefix of the path resolves to a value that is no mapping and a
  further segment follows, \<open>is_valid_path\<close> returns no boolean: the type error of the
  lookup passes through, since only the missing-key error is caught.  The document
  \<open>{a: 1}\<close> with path \<open>a.b\<close> is such a case.
\<close>

theorem is_valid_path_type_error:
  assumes "find_path d (PathList ks) = Inr x" and "\<not> is_dict x"
    and "path_segments p = ks @ k # rest"
  shows "is_valid_path d p = Inl TypeError"
  using assms
  by (simp add: is_valid_path_def find_path_walk walk_append py_getitem_not_dict)

theorem is_valid_path_type_error_witness:
  "find_path (PDict [(''a'', PInt 1)]) (PathList [''a'']) = Inr (PInt 1)
   \<and> \<not> is_dict (PInt 1)
   \<and> path_segments (PathStr ''a.b'') = [''a''] @ ''b'' # []
   \<and> is_valid_path (PDict [(''a'', PInt 1)]) (PathStr ''a.b'') = Inl TypeError"
proof -
  have 1: "find_path (PDict [(''a'', PInt 1)]) (PathList [''a'']) = Inr (PInt 1)"
    by (simp add: find_path_walk)
  have 2: "\<not> is_dict (PInt 1)" by simp
  have 3: "path_segments (PathStr ''a.b'') = [''a''] @ ''b'' # []" by simp
  show ?thesis
    using 1 2 3 is_valid_path_type_error [OF 1 2 3] by simp
qed

section \<open>Polling\<close>

lemma wait_for_request_polls:
  assumes ip: "\<And>h u r. conn h (GetRequestStatus u r) = Inr (PStr ''In Progress'')"
  shows "wait_for_request conn request (int n + 1) v
           = Some (timeout_outcome request n, polled n request v)"
proof (induction n arbitrary: v)
  case 0
  show ?case
    by (subst wait_for_request.simps) (simp add: timeout_outcome_def split: sum.splits)
next
  case (Suc n)
  have step: "int (Suc n) + 1 - 1 = int n + 1" by simp
  show ?case
    apply (subst wait_for_request.simps)
    apply (simp only: step)
    apply (simp add: backend_def ip py_eq_str_def Suc.IH timeout_outcome_def split: sum.splits)
    done
qed

lemma status_queries_polled: "status_queries (polled n request v) = status_queries v + n"
  by (induction n arbitrary: v) (simp_all add: status_queries_def sleep_def set_request_def)

text \<open>
  Claim C1, evaluated on the code.  Against a backend that answers \<open>"In Progress"\<close> to
  every query, \<open>wait_for_request\<close> with its default budget of 18 and an action identifier
  that is an integer or a string returns, but after 17 status queries, and with the status
  \<open>"Exception"\<close>: the eighteenth call reaches the exit, where the log message reads
  \<open>request.requestId\<close>, and the caller's handler catches the \<open>AttributeError\<close>.
\<close>

theorem wait_for_request_in_progress_exception:
  "(\<exists>v'. wait_for_request always_in_progress (PInt i) 18 v
            = Some (Inr (PStr ''Exception''), v')
         \<and> status_queries v' = status_queries v + 17)
   \<and> (\<exists>v'. wait_for_request always_in_progress (PStr s) 18 v
            = Some (Inr (PStr ''Exception''), v')
         \<and> status_queries v' = status_queries v + 17)"
  using wait_for_request_polls [of always_in_progress "PInt i" 17 v]
    wait_for_request_polls [of always_in_progress "PStr s" 17 v]
  by (simp add: always_in_progress_def timeout_outcome_def status_queries_polled)

section \<open>The admission check\<close>

text \<open>
  Claim C3.  Let the record of a topic hold a truthy id and the timestamp \<open>t0\<close>.  Invoked
  at a time \<open>now\<close> no later than three minutes after \<open>t0\<close>, \<open>_in_progress\<close> returns true
  (the submission is skipped) and changes nothing; invoked later than that, it removes the
  id from the record and returns false (the submission is permitted).
\<close>

theorem in_progress_gate:
  assumes "map_of (requests v) topic = Some (PDict entry)"
    and "map_of entry ''id'' = Some ident" and "truthy ident"
    and "map_of entry ''timestamp'' = Some (PTime t0)"
  shows "in_progress topic unknown_offset (v\<lparr>clock := now\<rparr>)
           = (if t0 + minutes 3 < now
              then (Inr False,
                    set_request topic (PDict (AList.delete ''id'' entry)) (v\<lparr>clock := now\<rparr>))
              else (Inr True, v\<lparr>clock := now\<rparr>))
         \<and> map_of (AList.delete ''id'' entry) ''id'' = None"
  using assms
  by (auto simp add: in_progress_def dict_get_def set_request_def delete_conv')

theorem in_progress_gate_witness:
  "in_progress ''lock'' 0 (pending_lock\<lparr>clock := minutes 3\<rparr>)
     = (Inr True, pending_lock\<lparr>clock := minutes 3\<rparr>)
   \<and> in_progress ''lock'' 0 (pending_lock\<lparr>clock := minutes 3 + 1\<rparr>)
     = (Inr False,
        set_request ''lock'' (PDict [(''timestamp'', PTime 0), (''status'', PStr ''In Progress'')])
          (pending_lock\<lparr>clock := minutes 3 + 1\<rparr>))"
proof -
  let ?entry = "[(''timestamp'', PTime 0), (''status'', PStr ''In Progress''), (''id'', PInt 7)]"
  have 1: "map_of (requests pending_lock) ''lock'' = Some (PDict ?entry)"
    by (simp add: pending_lock_def set_request_def update_conv')
  have 2: "map_of ?entry ''id'' = Some (PInt 7)" by simp
  have 3: "truthy (PInt 7)" by simp
  have 4: "map_of ?entry ''timestamp'' = Some (PTime 0)" by simp
  show ?thesis
    using in_progress_gate [OF 1 2 3 4, of 0 "minutes 3"]
      in_progress_gate [OF 1 2 3 4, of 0 "minutes 3 + 1"]
    by (simp add: minutes_def)
qed

section \<open>Throttled submissions\<close>

text \<open>
  Claim C4.  For a truthy response whose \<open>state\<close> is \<open>"Throttled"\<close>, \<open>_handle_response\<close>
  returns true without a single call on the connection (so without a status query, which
  \<open>wait_for_request\<close> with budget 18 starts with), and the topic's record ends as the
  status \<open>"Throttled"\<close> with the current timestamp.
\<close>

theorem throttled_no_polling:
  assumes "response = PDict entries" and "truthy response"
    and "dict_get entries ''state'' PNone = PStr ''Throttled''"
  shows "\<exists>v'. handle_response conn response topic error_msg v = Some (Inr True, v')
           \<and> calls v' = calls v
           \<and> status_queries v' = status_queries v
           \<and> map_of (requests v') topic
               = Some (PDict [(''status'', PStr ''Throttled''), (''timestamp'', PTime (clock v))])"
  using assms
  by (auto simp add: handle_response_def py_eq_str_def set_request_def status_queries_def
        Let_def update_conv')

theorem throttled_no_polling_witness:
  "\<exists>v'. handle_response always_in_progress
           (PDict [(''state'', PStr ''Throttled''), (''id'', PInt 5)])
           ''climatisation'' None demo_vehicle = Some (Inr True, v')
        \<and> calls v' = []
        \<and> status_queries v' = 0
        \<and> map_of (requests v') ''climatisation''
            = Some (PDict [(''status'', PStr ''Throttled''), (''timestamp'', PTime 0)])"
proof -
  let ?entries = "[(''state'', PStr ''Throttled''), (''id'', PInt 5)]"
  have 1: "PDict ?entries = PDict ?entries" by simp
  have 2: "truthy (PDict ?entries)" by simp
  have 3: "dict_get ?entries ''state'' PNone = PStr ''Throttled''"
    by (simp add: dict_get_def)
  have c: "calls demo_vehicle = []" "clock demo_vehicle = 0"
    by (simp_all add: demo_vehicle_def init_vehicle_def)
  show ?thesis
    using throttled_no_polling [OF 1 2 3, of always_in_progress "''climatisation''" None demo_vehicle]
    by (simp add: c status_queries_def)
qed

section \<open>Polling returns\<close>

lemma poll_frame_refl: "poll_frame v v"
  by (simp add: poll_frame_def)

lemma poll_frame_trans: "poll_frame a b \<Longrightarrow> poll_frame b c \<Longrightarrow> poll_frame a c"
  unfolding poll_frame_def by (elim conjE exE) (auto simp: list_all_append)

lemma poll_frame_query:
  "poll_frame v (v\<lparr>calls := calls v @ [GetRequestStatus u r]\<rparr>)"
  by (simp add: poll_frame_def)

lemma poll_frame_state:
  "poll_frame v (set_request ''state'' x v)"
  by (simp add: poll_frame_def set_request_def update_conv')

lemma poll_frame_sleep: "poll_frame v (sleep n v)"
  by (simp add: poll_frame_def sleep_def)

lemma wait_for_request_returns:
  "\<exists>r v'. wait_for_request conn request (int n + 1) v = Some (r, v') \<and> poll_frame v v'"
proof (induction n arbitrary: v)
  case 0
  show ?case
    by (subst wait_for_request.simps) (simp add: poll_frame_refl split: sum.splits)
next
  case (Suc n)
  let ?v1 = "v\<lparr>calls := calls v @ [GetRequestStatus (url v) request]\<rparr>"
  have f1: "poll_frame v ?v1" by (rule poll_frame_query)
  have step: "int (Suc n) + 1 - 1 = int n + 1" by simp
  have ne: "int (Suc n) + 1 - 1 \<noteq> 0" by simp
  show ?case
  proof (cases "conn (calls v) (GetRequestStatus (url v) request)")
    case (Inl e)
    then have "wait_for_request conn request (int (Suc n) + 1) v
                 = Some (Inr (PStr ''Exception''), ?v1)"
      by (subst wait_for_request.simps) (simp add: backend_def)
    with f1 show ?thesis by blast
  next
    case (Inr status)
    show ?thesis
    proof (cases "py_eq_str status ''In Progress''")
      case False
      with Inr have "wait_for_request conn request (int (Suc n) + 1) v
                 = Some (Inr status, set_request ''state'' status ?v1)"
        by (subst wait_for_request.simps) (simp add: backend_def)
      moreover have "poll_frame v (set_request ''state'' status ?v1)"
        using f1 poll_frame_state poll_frame_trans by blast
      ultimately show ?thesis by blast
    next
      case True
      let ?v2 = "sleep 10 (set_request ''state'' status ?v1)"
      have f2: "poll_frame v ?v2"
        using f1 poll_frame_state poll_frame_sleep poll_frame_trans by blast
      from Suc.IH [of ?v2] obtain r v' where
        rec: "wait_for_request conn request (int n + 1) ?v2 = Some (r, v')"
        and f3: "poll_frame ?v2 v'" by blast
      have "\<exists>r'. wait_for_request conn request (int (Suc n) + 1) v = Some (r', v')"
        apply (subst wait_for_request.simps)
        apply (simp only: step)
        using Inr True rec
        apply (simp add: backend_def split: sum.splits)
        done
      moreover have "poll_frame v v'" using f2 f3 poll_frame_trans by blast
      ultimately show ?thesis by blast
    qed
  qed
qed

lemma wait_for_request_18:
  "\<exists>r v'. wait_for_request conn request 18 v = Some (r, v') \<and> poll_frame v v'"
  using wait_for_request_returns [of conn request 17 v] by simp

lemma wait_for_request_18_no_raise:
  "wait_for_request conn request 18 v \<noteq> Some (Inl e, v')"
  by (subst wait_for_request.simps)
     (auto simp add: backend_def split: sum.splits prod.splits option.splits bind_splits)

section \<open>Handling the submission response\<close>

lemma handle_response_not_dict:
  assumes "truthy response" and "\<not> is_dict response"
  shows "handle_response conn response topic error_msg v = Some (Inl AttributeError, v)"
  using assms by (cases response) (simp_all add: handle_response_def)

lemma handle_response_falsy:
  assumes "\<not> truthy response"
  shows "handle_response conn response topic error_msg v
           = Some (Inl (PyException (failure_message topic error_msg)), failed_record topic v)"
  using assms by (simp add: handle_response_def failure_message_def failed_record_def)

lemma handle_response_dict:
  assumes "truthy (PDict entries)"
  shows "handle_response conn (PDict entries) topic error_msg v
           = Option.bind (terminal_status conn entries (pending_record topic entries v))
               (\<lambda>(r, v3). case r of
                  Inl e \<Rightarrow> Some (Inl e, v3)
                | Inr status \<Rightarrow> Some (Inr True, completed_record topic status v3))"
  unfolding completed_record_def
  using assms
  by (simp add: handle_response_def terminal_status_def pending_record_def Let_def)

lemma terminal_status_returns:
  "\<exists>st v3. terminal_status conn entries v = Some (Inr st, v3) \<and> poll_frame v v3"
proof (cases "py_eq_str (dict_get entries ''state'' PNone) ''Throttled''")
  case True
  then show ?thesis by (simp add: terminal_status_def poll_frame_refl)
next
  case False
  obtain r v3 where w: "wait_for_request conn (dict_get entries ''id'' (PInt 0)) 18 v = Some (r, v3)"
    and f: "poll_frame v v3"
    using wait_for_request_18 by blast
  from w wait_for_request_18_no_raise obtain st where "r = Inr st" by (cases r) auto
  with False w f show ?thesis by (auto simp add: terminal_status_def)
qed

lemma handle_response_accepted:
  assumes "truthy (PDict entries)"
  shows "\<exists>st v3. terminal_status conn entries (pending_record topic entries v) = Some (Inr st, v3)
           \<and> poll_frame (pending_record topic entries v) v3
           \<and> handle_response conn (PDict entries) topic error_msg v
               = Some (Inr True, completed_record topic st v3)"
proof -
  from terminal_status_returns [of conn entries "pending_record topic entries v"]
  obtain st v3 where t: "terminal_status conn entries (pending_record topic entries v) = Some (Inr st, v3)"
    and f: "poll_frame (pending_record topic entries v) v3" by blast
  then show ?thesis by (auto simp add: handle_response_dict [OF assms])
qed



section \<open>The lock action\<close>


lemma no_pending_cong:
  "map_of (requests a) topic = map_of (requests b) topic \<Longrightarrow> no_pending topic a = no_pending topic b"
  by (simp add: no_pending_def dict_get_def)


lemma in_progress_permitted:
  assumes "in_progress topic unknown_offset v = (Inr False, v1)"
  shows "no_pending topic v1"
    and "calls v1 = calls v" and "url v1 = url v" and "services v1 = services v"
    and "clock v1 = clock v"
    and "\<forall>k. k \<noteq> topic \<longrightarrow> map_of (requests v1) k = map_of (requests v) k"
    and "request_status topic v1 = request_status topic v"
    and "no_pending topic v \<longrightarrow> v1 = v"
  using assms
  by (auto simp add: in_progress_def no_pending_def request_status_def Let_def set_request_def
        dict_get_def update_conv' delete_conv'
      split: sum.splits if_splits pyval.splits option.splits)

lemma in_progress_busy:
  "in_progress topic unknown_offset v = (Inr True, v1) \<Longrightarrow> v1 = v"
  by (auto simp add: in_progress_def Let_def split: sum.splits if_splits pyval.splits)



lemma lock_failed_eq:
  "lock_failed v = (Inl (PyException [Lit ''Lock action failed'']), exception_record v)"
  by (simp add: lock_failed_def exception_record_def)



lemma set_climatisation_temp_submit:
  assumes "py_or (is_electric_climatisation_supported S v)
             (is_auxiliary_climatisation_supported v) = Inr True"
    and "py_float temperature = Inr target"
    and "31 / 2 \<le> target" "target \<le> 30"
    and "climatisation_without_external_power S v = Inr x"
  shows "set_climatisation_temp S conn temperature v
           = submit conn
               (SetClimaterSettings (url v)
                  (PDict [(''targetTemperature'', PFloat target),
                          (''targetTemperatureUnit'', PStr ''celsius''),
                          (''climatisationWithoutExternalPower'', x)]))
               ''climatisation'' (Some [Lit ''Failed to set temperature''])
               (set_request ''latest'' (PStr ''Climatisation'') v)"
  using assms by (simp add: set_climatisation_temp_def submit_def)




section \<open>The record under the key of the lock action\<close>





lemma exception_record_lock_failed: "snd (lock_failed v) = exception_record v"
  by (simp add: lock_failed_eq)






section \<open>Setting the climatisation temperature\<close>

lemma handle_response_returns:
  "\<exists>r v' extra. handle_response conn response topic error_msg v = Some (r, v')
       \<and> calls v' = calls v @ extra"
proof -
  consider (falsy) "\<not> truthy response" | (odd) "truthy response" "\<not> is_dict response"
    | (ok) "truthy response" "is_dict response" by blast
  then show ?thesis
  proof cases
    case falsy
    from handle_response_falsy [OF falsy, of conn topic error_msg v] show ?thesis
      by (simp add: failed_record_def set_request_def)
  next
    case odd
    from handle_response_not_dict [OF odd, of conn topic error_msg v] show ?thesis by auto
  next
    case ok
    then obtain entries where r: "response = PDict entries" by (cases response) simp_all
    from handle_response_accepted [OF ok(1) [unfolded r], where conn = conn and topic = topic
        and error_msg = error_msg and v = v]
    obtain st v3 where
      fr: "poll_frame (pending_record topic entries v) v3"
      and eq: "handle_response conn (PDict entries) topic error_msg v
                 = Some (Inr True, completed_record topic st v3)" by blast
    from fr obtain extra where "calls v3 = calls (pending_record topic entries v) @ extra"
      unfolding poll_frame_def by blast
    then have "calls (completed_record topic st v3) = calls v @ extra"
      by (simp add: completed_record_def pending_record_def set_request_def Let_def)
    with eq r show ?thesis by blast
  qed
qed

lemma electric_supported_path:
  assumes "py_or (is_electric_climatisation_supported S v)
             (is_auxiliary_climatisation_supported v) = Inr True"
  shows "\<exists>x. climatisation_without_external_power S v = Inr x"
  using assms
  by (auto simp add: py_or_def py_and_def is_electric_climatisation_supported_def
        is_auxiliary_climatisation_supported_def
        is_climatisation_without_external_power_supported_def
        climatisation_without_external_power_def is_valid_path_def
      split: sum.splits if_splits error.splits)

lemma bitlen_lower: "0 < n \<Longrightarrow> 2 ^ (bitlen n - 1) \<le> n"
proof (induction n rule: bitlen.induct)
  case (1 n)
  have unfold: "bitlen n = Suc (bitlen (n div 2))"
    using 1(2) by (subst bitlen.simps) simp
  show ?case
  proof (cases "n div 2 = 0")
    case True
    then have "bitlen (n div 2) = 0" by (subst bitlen.simps) simp
    with unfold 1(2) show ?thesis by simp
  next
    case False
    then have pos: "0 < n div 2" by simp
    have n0: "n \<noteq> 0" using 1(2) by simp
    from 1(1) [OF n0 pos] have ih: "2 ^ (bitlen (n div 2) - 1) \<le> n div 2" .
    have "0 < bitlen (n div 2)"
      using False by (subst bitlen.simps) simp
    then have "bitlen (n div 2) = Suc (bitlen (n div 2) - 1)" by simp
    then have "(2::nat) ^ bitlen (n div 2) = 2 * 2 ^ (bitlen (n div 2) - 1)"
      by (metis power_Suc)
    also have "\<dots> \<le> 2 * (n div 2)" using ih by simp
    also have "\<dots> \<le> n" by simp
    finally show ?thesis using unfold by simp
  qed
qed

lemma round_to_double_small: "n < 2 ^ 53 \<Longrightarrow> round_to_double n = n"
  by (simp add: round_to_double_def)

lemma round_to_double_large:
  assumes big: "2 ^ 53 \<le> n"
  shows "2 ^ 52 \<le> round_to_double n"
proof -
  define e where "e = bitlen n - 53"
  define q where "q = n div 2 ^ e"
  have pos: "0 < n" using big by (simp add: less_le_trans [of 0 "2 ^ 53" n])
  have low: "2 ^ 52 * 2 ^ e \<le> n"
  proof (cases "e = 0")
    case True
    have "(2::nat) ^ 52 \<le> 2 ^ 53" by simp
    with big True show ?thesis by simp
  next
    case False
    then have "bitlen n - 1 = 52 + e" unfolding e_def by simp
    with bitlen_lower [OF pos] show ?thesis by (simp add: power_add)
  qed
  have "2 ^ 52 * 2 ^ e div 2 ^ e \<le> n div 2 ^ e"
    by (rule div_le_mono [OF low])
  then have q52: "2 ^ 52 \<le> q" unfolding q_def by simp
  have "q \<le> q * 2 ^ e" by simp
  with q52 have a: "2 ^ 52 \<le> q * 2 ^ e" by (rule le_trans)
  have "q * 2 ^ e \<le> (q + 1) * 2 ^ e" by simp
  with a have b: "2 ^ 52 \<le> (q + 1) * 2 ^ e" by (rule le_trans)
  have nb: "\<not> n < 2 ^ 53" using big by simp
  show ?thesis
    unfolding round_to_double_def Let_def e_def [symmetric] q_def [symmetric]
    using a b nb by (simp only: if_False split: if_split) simp
qed

lemma py_float_in_range:
  assumes "31 / 2 \<le> number_value temperature" "number_value temperature \<le> 30"
  shows "py_float temperature = Inr (number_value temperature)"
proof (cases temperature)
  case (NFloat r)
  then show ?thesis by simp
next
  case (NInt i)
  with assms have lo: "(31 / 2 :: rat) \<le> of_int i" and hi: "(of_int i :: rat) \<le> 30" by simp_all
  from lo have "(0 :: rat) < of_int i" by linarith
  then have ipos: "0 < i" by simp
  from hi have i30: "i \<le> 30" by simp
  have "nat \<bar>i\<bar> < 2 ^ 53" using ipos i30 by simp
  then have r: "round_to_double (nat \<bar>i\<bar>) = nat \<bar>i\<bar>" by (rule round_to_double_small)
  have "\<not> (2 :: nat) ^ 1024 \<le> nat \<bar>i\<bar>" using ipos i30 by simp
  with r ipos show ?thesis unfolding NInt by simp
qed

lemma py_float_out_of_range:
  assumes out: "\<not> (31 / 2 \<le> number_value temperature \<and> number_value temperature \<le> 30)"
    and conv: "py_float temperature = Inr x"
  shows "\<not> (31 / 2 \<le> x \<and> x \<le> 30)"
proof (cases temperature)
  case (NFloat r)
  with assms show ?thesis by simp
next
  case (NInt i)
  from conv have x: "x = of_int (sgn i * int (round_to_double (nat \<bar>i\<bar>)))"
    unfolding NInt by (simp split: if_splits)
  consider (neg) "i \<le> 0" | (small) "0 < i" "nat \<bar>i\<bar> < 2 ^ 53" | (large) "0 < i" "2 ^ 53 \<le> nat \<bar>i\<bar>"
    by linarith
  then show ?thesis
  proof cases
    case neg
    then have "(of_int (sgn i) :: rat) \<le> 0" by (simp add: sgn_if)
    then have "x \<le> 0" unfolding x by (simp add: mult_nonpos_nonneg)
    then show ?thesis by simp
  next
    case small
    then have "x = of_int i" unfolding x by (simp add: round_to_double_small)
    with out NInt show ?thesis by simp
  next
    case large
    from round_to_double_large [OF large(2)]
    have "(31 :: nat) \<le> round_to_double (nat \<bar>i\<bar>)" by simp
    then have "(31 :: int) \<le> int (round_to_double (nat \<bar>i\<bar>))" by simp
    then have "(31 :: int) \<le> sgn i * int (round_to_double (nat \<bar>i\<bar>))"
      using large(1) by simp
    then have "(of_int 31 :: rat) \<le> x" unfolding x by (simp only: of_int_le_iff)
    then show ?thesis by simp
  qed
qed

lemma py_float_error: "py_float temperature = Inl e \<Longrightarrow> e = OverflowError"
  by (cases temperature) (simp_all split: if_splits)

lemma set_climatisation_temp_rejected:
  assumes sup: "py_or (is_electric_climatisation_supported S v)
             (is_auxiliary_climatisation_supported v) = Inr True"
    and out: "\<not> (31 / 2 \<le> number_value temperature \<and> number_value temperature \<le> 30)"
  shows "set_climatisation_temp S conn temperature v
           = Some (Inl (if py_float temperature = Inl OverflowError then OverflowError
                        else temperature_rejected temperature), v)"
proof (cases "py_float temperature")
  case (Inl e)
  with py_float_error [OF Inl] sup show ?thesis
    by (simp add: set_climatisation_temp_def)
next
  case (Inr x)
  from py_float_out_of_range [OF out Inr] sup Inr show ?thesis
    by (auto simp add: set_climatisation_temp_def temperature_rejected_def)
qed

lemma set_climatisation_temp_submitted:
  assumes sup: "py_or (is_electric_climatisation_supported S v)
             (is_auxiliary_climatisation_supported v) = Inr True"
    and range: "31 / 2 \<le> number_value temperature" "number_value temperature \<le> 30"
  shows "\<exists>r v' x extra. set_climatisation_temp S conn temperature v = Some (r, v')
           \<and> climatisation_without_external_power S v = Inr x
           \<and> calls v' = calls v @
               SetClimaterSettings (url v)
                 (PDict [(''targetTemperature'', PFloat (number_value temperature)),
                         (''targetTemperatureUnit'', PStr ''celsius''),
                         (''climatisationWithoutExternalPower'', x)]) # extra"
proof -
  note conv = py_float_in_range [OF range]
  from electric_supported_path [OF sup] obtain x where
    x: "climatisation_without_external_power S v = Inr x" by blast
  let ?c = "SetClimaterSettings (url v)
                 (PDict [(''targetTemperature'', PFloat (number_value temperature)),
                         (''targetTemperatureUnit'', PStr ''celsius''),
                         (''climatisationWithoutExternalPower'', x)])"
  let ?v1 = "(set_request ''latest'' (PStr ''Climatisation'') v)\<lparr>calls := calls v @ [?c]\<rparr>"
  show ?thesis
  proof (cases "conn (calls v) ?c")
    case (Inl e)
    then have "set_climatisation_temp S conn temperature v = Some (Inl e, ?v1)"
      using sup range x conv
      by (simp add: set_climatisation_temp_def backend_def set_request_def)
    then show ?thesis using x by simp
  next
    case (Inr response)
    then have eq: "set_climatisation_temp S conn temperature v
             = handle_response conn response ''climatisation''
                 (Some [Lit ''Failed to set temperature'']) ?v1"
      using sup range x conv
      by (simp add: set_climatisation_temp_def backend_def set_request_def)
    from handle_response_returns [of conn response "''climatisation''"
        "Some [Lit ''Failed to set temperature'']" ?v1]
    obtain r v' extra where
      "handle_response conn response ''climatisation''
                 (Some [Lit ''Failed to set temperature'']) ?v1 = Some (r, v')"
      "calls v' = calls ?v1 @ extra" by blast
    then show ?thesis using eq x by (simp add: set_request_def)
  qed
qed

lemma bitlen_power: "bitlen (2 ^ k) = Suc k"
proof (induction k)
  case 0
  show ?case by (subst bitlen.simps, subst bitlen.simps) simp
next
  case (Suc k)
  have "bitlen (2 ^ Suc k) = Suc (bitlen (2 ^ Suc k div 2))"
    by (subst bitlen.simps) simp
  with Suc show ?case by simp
qed

lemma py_float_overflow: "py_float (NInt (2 ^ 1024)) = Inl OverflowError"
proof -
  have n: "nat \<bar>2 ^ 1024 :: int\<bar> = 2 ^ 1024" by (simp add: nat_power_eq)
  have "round_to_double (2 ^ 1024) = 2 ^ 1024"
    unfolding round_to_double_def bitlen_power Let_def by simp
  then show ?thesis unfolding py_float.simps n by simp
qed

text \<open>
  Claim C7.  Given that electric or auxiliary climatisation is supported,
  \<open>set_climatisation_temp\<close> raises for the temperatures 31 and 15 and leaves the vehicle
  and the connection untouched, so nothing is submitted; for 20 it returns after calling
  \<open>setClimaterSettings\<close> with the target temperature 20.0.  In general the call is made
  exactly when the temperature lies in the range from 15.5 to 30, both included, with the
  temperature itself as the target; otherwise an exception is raised with nothing
  changed: the one that names the temperature, or \<open>OverflowError\<close> for an int beyond the
  range of a float.
\<close>

theorem set_climatisation_temp_range:
  assumes sup: "py_or (is_electric_climatisation_supported S v)
             (is_auxiliary_climatisation_supported v) = Inr True"
  shows "set_climatisation_temp S conn (NInt 31) v = Some (Inl (temperature_rejected (NInt 31)), v)
       \<and> set_climatisation_temp S conn (NInt 15) v = Some (Inl (temperature_rejected (NInt 15)), v)
       \<and> (\<exists>r v' x extra. set_climatisation_temp S conn (NInt 20) v = Some (r, v')
             \<and> calls v' = calls v @
                 SetClimaterSettings (url v)
                   (PDict [(''targetTemperature'', PFloat 20),
                           (''targetTemperatureUnit'', PStr ''celsius''),
                           (''climatisationWithoutExternalPower'', x)]) # extra)
       \<and> (if 31 / 2 \<le> number_value temperature \<and> number_value temperature \<le> 30
          then \<exists>r v' x extra. set_climatisation_temp S conn temperature v = Some (r, v')
             \<and> calls v' = calls v @
                 SetClimaterSettings (url v)
                   (PDict [(''targetTemperature'', PFloat (number_value temperature)),
                           (''targetTemperatureUnit'', PStr ''celsius''),
                           (''climatisationWithoutExternalPower'', x)]) # extra
          else set_climatisation_temp S conn temperature v
                 = Some (Inl (if py_float temperature = Inl OverflowError then OverflowError
                              else temperature_rejected temperature), v))"
proof -
  have f31: "py_float (NInt 31) \<noteq> Inl OverflowError"
    by (simp add: round_to_double_small)
  have f15: "py_float (NInt 15) \<noteq> Inl OverflowError"
    by (simp add: round_to_double_small)
  have a: "set_climatisation_temp S conn (NInt 31) v = Some (Inl (temperature_rejected (NInt 31)), v)"
    using set_climatisation_temp_rejected [OF sup, of "NInt 31" conn] f31 by simp
  have b: "set_climatisation_temp S conn (NInt 15) v = Some (Inl (temperature_rejected (NInt 15)), v)"
    using set_climatisation_temp_rejected [OF sup, of "NInt 15" conn] f15 by simp
  have c: "\<exists>r v' x extra. set_climatisation_temp S conn (NInt 20) v = Some (r, v')
             \<and> calls v' = calls v @
                 SetClimaterSettings (url v)
                   (PDict [(''targetTemperature'', PFloat 20),
                           (''targetTemperatureUnit'', PStr ''celsius''),
                           (''climatisationWithoutExternalPower'', x)]) # extra"
    using set_climatisation_temp_submitted [OF sup, of "NInt 20" conn] by auto
  have d: "if 31 / 2 \<le> number_value temperature \<and> number_value temperature \<le> 30
          then \<exists>r v' x extra. set_climatisation_temp S conn temperature v = Some (r, v')
             \<and> calls v' = calls v @
                 SetClimaterSettings (url v)
                   (PDict [(''targetTemperature'', PFloat (number_value temperature)),
                           (''targetTemperatureUnit'', PStr ''celsius''),
                           (''climatisationWithoutExternalPower'', x)]) # extra
          else set_climatisation_temp S conn temperature v
                 = Some (Inl (if py_float temperature = Inl OverflowError then OverflowError
                              else temperature_rejected temperature), v)"
  proof (cases "31 / 2 \<le> number_value temperature \<and> number_value temperature \<le> 30")
    case True
    then show ?thesis
      using set_climatisation_temp_submitted [OF sup, of temperature conn] by auto
  next
    case False
    then show ?thesis
      using set_climatisation_temp_rejected [OF sup False, of conn] by simp
  qed
  show ?thesis using a b c d by blast
qed

text \<open>
  An instance on a vehicle whose state document holds the climatisation status and
  settings; the boundary 15.5 itself is accepted, and the int \<open>2 ^ 1024\<close> overflows.
\<close>

theorem set_climatisation_temp_range_witness:
  "set_climatisation_temp demo_services accepting_backend (NInt 31) climate_vehicle
     = Some (Inl (temperature_rejected (NInt 31)), climate_vehicle)
   \<and> set_climatisation_temp demo_services accepting_backend (NInt 15) climate_vehicle
     = Some (Inl (temperature_rejected (NInt 15)), climate_vehicle)
   \<and> (\<exists>r v' x extra.
         set_climatisation_temp demo_services accepting_backend (NInt 20) climate_vehicle
           = Some (r, v')
       \<and> calls v' = calls climate_vehicle @
           SetClimaterSettings (url climate_vehicle)
             (PDict [(''targetTemperature'', PFloat 20),
                     (''targetTemperatureUnit'', PStr ''celsius''),
                     (''climatisationWithoutExternalPower'', x)]) # extra)
   \<and> set_climatisation_temp demo_services accepting_backend (NFloat (31 / 2)) climate_vehicle
     \<noteq> Some (Inl (temperature_rejected (NFloat (31 / 2))), climate_vehicle)
   \<and> set_climatisation_temp demo_services accepting_backend (NInt (2 ^ 1024)) climate_vehicle
     = Some (Inl OverflowError, climate_vehicle)"
proof -
  have sup: "py_or (is_electric_climatisation_supported demo_services climate_vehicle)
         (is_auxiliary_climatisation_supported climate_vehicle) = Inr True"
    by (simp add: py_or_def py_and_def is_electric_climatisation_supported_def
        is_climatisation_supported_def is_climatisation_target_temperature_supported_def
        is_climatisation_without_external_power_supported_def is_valid_path_def
        find_path_walk attrs_def climate_vehicle_def demo_services_def)
  have "\<exists>r v' x extra.
         set_climatisation_temp demo_services accepting_backend (NFloat (31 / 2)) climate_vehicle
           = Some (r, v')
       \<and> calls v' = calls climate_vehicle @
           SetClimaterSettings (url climate_vehicle)
             (PDict [(''targetTemperature'', PFloat (31 / 2)),
                     (''targetTemperatureUnit'', PStr ''celsius''),
                     (''climatisationWithoutExternalPower'', x)]) # extra"
    using set_climatisation_temp_range [OF sup, of accepting_backend "NFloat (31 / 2)"] by simp
  then have edge: "set_climatisation_temp demo_services accepting_backend (NFloat (31 / 2))
         climate_vehicle \<noteq> Some (Inl (temperature_rejected (NFloat (31 / 2))), climate_vehicle)"
    by auto
  have "\<not> (31 / 2 \<le> number_value (NInt (2 ^ 1024)) \<and> number_value (NInt (2 ^ 1024)) \<le> 30)"
    by simp
  then have over: "set_climatisation_temp demo_services accepting_backend (NInt (2 ^ 1024))
         climate_vehicle = Some (Inl OverflowError, climate_vehicle)"
    using set_climatisation_temp_range [OF sup, of accepting_backend "NInt (2 ^ 1024)"]
    by (simp only: py_float_overflow if_False if_True simp_thms)
  show ?thesis
    using set_climatisation_temp_range [OF sup, of accepting_backend "NInt 20"] edge over by simp
qed

section \<open>Discovery overwrites the active flag\<close>

lemma service_active_entry:
  "service_active s v = Inr (PBool True) \<Longrightarrow> service_entry s v"
  by (auto simp add: service_active_def service_entry_def dict_get_def
      split: option.splits pyval.splits)

lemma dict_update_active_False:
  "dict_get (dict_update old [(''active'', PBool False)]) ''active'' dflt = PBool False"
  by (simp add: dict_update_def dict_get_def update_conv')

lemma discover_service_marks_inactive:
  assumes "service_entry s v"
    and "map_of caps s = Some (PDict entry)"
    and "dict_get entry ''id'' PNone = PStr s"
    and "\<not> truthy (dict_get entry ''isEnabled'' (PBool False))"
  shows "service_active s (discover_service caps s v) = Inr (PBool False)
       \<and> service_entry s (discover_service caps s v)"
proof -
  from assms(1) obtain old where old: "map_of (services v) s = Some (PDict old)"
    by (auto simp add: service_entry_def split: option.splits pyval.splits)
  then have mem: "s \<in> fst ` set (services v)"
    by (metis domI dom_map_of_conv_image_fst)
  have sd: "service_data (PDict entry) = Inr (PStr s, [(''active'', PBool False)])"
    using assms(3,4) by (simp add: service_data_def Let_def)
  have "discover_service caps s v
          = v\<lparr>services := AList.update s (PDict (dict_update old [(''active'', PBool False)]))
                              (services v)\<rparr>"
    using mem old sd assms(2)
    by (simp add: discover_service_def dict_get_def update_service_def)
  then show ?thesis
    by (simp add: service_active_def service_entry_def update_conv' dict_get_def
        dict_update_def)
qed

lemma service_data_name:
  "service_data x = Inr (name, data) \<Longrightarrow> py_get x ''id'' PNone = Inr name"
  by (auto simp add: service_data_def Let_def split: pyval.splits if_splits sum.splits)

lemma discover_service_other:
  assumes "k \<noteq> s" and "names_only_itself s caps"
  shows "map_of (services (discover_service caps k v)) s = map_of (services v) s"
proof (cases "map_of caps k")
  case None
  then have "dict_get caps k PNone = PNone" by (simp add: dict_get_def)
  then show ?thesis
    by (simp add: discover_service_def service_data_def)
next
  case (Some x)
  then have "(k, x) \<in> set caps" by (rule map_of_SomeD)
  with assms have nm: "py_get x ''id'' PNone \<noteq> Inr (PStr s)"
    by (auto simp add: names_only_itself_def list_all_iff)
  have dg: "dict_get caps k PNone = x" using Some by (simp add: dict_get_def)
  show ?thesis
  proof (cases "service_data x")
    case (Inl e)
    then show ?thesis by (simp add: discover_service_def dg)
  next
    case (Inr nd)
    obtain name data where nd: "nd = (name, data)" by (cases nd)
    from service_data_name [of x name data] Inr nd nm have "name \<noteq> PStr s" by auto
    then show ?thesis
      using Inr nd
      by (auto simp add: discover_service_def dg update_service_def update_conv'
          split: pyval.splits option.splits)
  qed
qed

lemma service_active_cong:
  "map_of (services a) s = map_of (services b) s \<Longrightarrow> service_active s a = service_active s b"
  by (simp add: service_active_def dict_get_def)

lemma service_entry_cong:
  "map_of (services a) s = map_of (services b) s \<Longrightarrow> service_entry s a = service_entry s b"
  by (simp add: service_entry_def)

lemma fold_discover_service:
  assumes caps: "map_of caps s = Some (PDict entry)"
    and ident: "dict_get entry ''id'' PNone = PStr s"
    and off: "\<not> truthy (dict_get entry ''isEnabled'' (PBool False))"
    and others: "names_only_itself s caps"
  shows "service_entry s v \<Longrightarrow> s \<in> set ks \<or> service_active s v = Inr (PBool False)
         \<Longrightarrow> service_active s (fold (discover_service caps) ks v) = Inr (PBool False)"
proof (induction ks arbitrary: v)
  case Nil
  then show ?case by simp
next
  case (Cons k ks)
  show ?case
  proof (cases "k = s")
    case True
    from discover_service_marks_inactive [OF Cons.prems(1) caps ident off]
    have "service_active s (discover_service caps s v) = Inr (PBool False)"
      and "service_entry s (discover_service caps s v)" by auto
    then show ?thesis using Cons.IH [of "discover_service caps s v"] True by simp
  next
    case False
    from discover_service_other [OF False others, of v]
    have same: "map_of (services (discover_service caps k v)) s = map_of (services v) s" .
    have e: "service_entry s (discover_service caps k v)"
      using Cons.prems(1) service_entry_cong [OF same] by simp
    have "s \<in> set ks \<or> service_active s (discover_service caps k v) = Inr (PBool False)"
      using Cons.prems(2) False service_active_cong [OF same] by auto
    then show ?thesis using Cons.IH [OF e] by simp
  qed
qed

lemma discover_marks_inactive:
  assumes entry0: "service_entry s v"
    and reply: "getOperationList (calls v) (url v) = Inr lst"
    and caps: "map_of (capabilities lst) s = Some (PDict entry)"
    and ident: "dict_get entry ''id'' PNone = PStr s"
    and off: "\<not> truthy (dict_get entry ''isEnabled'' (PBool False))"
    and others: "names_only_itself s (capabilities lst)"
    and ret: "discover S getOperationList v = (Inr (), v')"
  shows "service_active s v' = Inr (PBool False)"
proof -
  let ?caps = "capabilities lst"
  have ne: "?caps \<noteq> []" using caps by auto
  have ks: "s \<in> set (map fst ?caps)"
    using caps by (metis domI dom_map_of_conv_image_fst set_map)
  let ?v1 = "v\<lparr>calls := calls v @ [GetOperationList (url v)]\<rparr>"
  let ?run = "\<lambda>v2. (fold (discover_service ?caps) (map fst ?caps) v2)\<lparr>discovered := True\<rparr>"
  have "\<exists>v2. service_entry s v2 \<and> v' = ?run v2"
  proof (cases "parameters lst = []")
    case True
    then have "v' = ?run ?v1"
      using ret reply ne by (simp add: discover_def Let_def)
    moreover have "service_entry s ?v1" using entry0 by (simp add: service_entry_def)
    ultimately show ?thesis by blast
  next
    case False
    then obtain old where
      "v' = ?run (?v1\<lparr>services :=
                 AList.update (PARAMETERS S) (PDict (dict_update old (parameters lst)))
                   (services ?v1)\<rparr>)"
      using ret reply ne
      by (auto simp add: discover_def Let_def
          split: if_splits sum.splits option.splits pyval.splits)
    moreover have "service_entry s (?v1\<lparr>services :=
                 AList.update (PARAMETERS S) (PDict (dict_update old (parameters lst)))
                   (services ?v1)\<rparr>)"
      using entry0 by (simp add: service_entry_def update_conv')
    ultimately show ?thesis by blast
  qed
  then obtain v2 where
    v2: "service_entry s v2" and
    v': "v' = (fold (discover_service ?caps) (map fst ?caps) v2)\<lparr>discovered := True\<rparr>"
    by blast
  from fold_discover_service [OF caps ident off others v2, of "map fst ?caps"] ks
  have "service_active s (fold (discover_service ?caps) (map fst ?caps) v2) = Inr (PBool False)"
    by simp
  then show ?thesis by (simp add: v' service_active_def)
qed

text \<open>
  Claim C8, as amended.  Let a first \<open>discover\<close> leave a service active.  If the listing
  of a second \<open>discover\<close> has, under the service's key, an entry that carries the
  service's id and is not enabled, and no other entry of that listing names the same id,
  then after the second call the service is inactive: its \<open>active\<close> flag is overwritten
  with false.
\<close>

theorem discover_twice_overwrites:
  assumes first: "discover S getOperationList v0 = (Inr (), v1)"
    and active: "service_active s v1 = Inr (PBool True)"
    and reply: "getOperationList (calls v1) (url v1) = Inr lst"
    and caps: "map_of (capabilities lst) s = Some (PDict entry)"
    and ident: "dict_get entry ''id'' PNone = PStr s"
    and off: "\<not> truthy (dict_get entry ''isEnabled'' (PBool False))"
    and others: "names_only_itself s (capabilities lst)"
    and second: "discover S getOperationList v1 = (Inr (), v2)"
  shows "service_active s v2 = Inr (PBool False)"
  using discover_marks_inactive [OF service_active_entry [OF active] reply caps ident
      off others second] .

lemmas demo_eval =
  discover_def toggling_backend_def nameless_backend_def listing_def listing_without_id_def
  demo_vehicle_def init_vehicle_def dict_of_def demo_services_def dict_get_def
  discover_service_def service_data_def update_service_def dict_update_def Let_def
  service_active_def

text \<open>
  An instance: a freshly constructed vehicle, a connection that lists \<open>access\<close> enabled
  on the first call and disabled on the second.
\<close>

theorem discover_twice_overwrites_witness:
  "discover demo_services toggling_backend demo_vehicle = (Inr (), discovered_once)
   \<and> service_active ''access'' discovered_once = Inr (PBool True)
   \<and> toggling_backend (calls discovered_once) (url discovered_once) = Inr (listing False)
   \<and> discover demo_services toggling_backend discovered_once = (Inr (), discovered_twice)
   \<and> service_active ''access'' discovered_twice = Inr (PBool False)"
proof -
  let ?entry = "[(''id'', PStr ''access''), (''isEnabled'', PBool False)]"
  have first: "discover demo_services toggling_backend demo_vehicle = (Inr (), discovered_once)"
    by (simp add: discovered_once_def demo_eval)
  have c1: "calls discovered_once = [GetOperationList ''WVWZZZ3HZPK002581'']"
    by (simp add: discovered_once_def demo_eval)
  have active: "service_active ''access'' discovered_once = Inr (PBool True)"
    by (simp add: discovered_once_def demo_eval)
  have reply: "toggling_backend (calls discovered_once) (url discovered_once)
                 = Inr (listing False)"
    by (simp add: c1 toggling_backend_def)
  have caps: "map_of (capabilities (listing False)) ''access'' = Some (PDict ?entry)"
    by (simp add: listing_def)
  have ident: "dict_get ?entry ''id'' PNone = PStr ''access''" by (simp add: dict_get_def)
  have off: "\<not> truthy (dict_get ?entry ''isEnabled'' (PBool False))"
    by (simp add: dict_get_def)
  have others: "names_only_itself ''access'' (capabilities (listing False))"
    by (simp add: names_only_itself_def listing_def)
  have second: "discover demo_services toggling_backend discovered_once = (Inr (), discovered_twice)"
    unfolding discovered_twice_def
    by (simp add: discovered_once_def demo_eval)
  show ?thesis
    using first active reply second
      discover_twice_overwrites [OF first active reply caps ident off others second]
    by simp
qed

text \<open>
  Claim C8 as stated fails: when the entry that disables \<open>access\<close> in the second listing
  carries no \<open>"id"\<close>, the name read from it is \<open>None\<close>, the update of \<open>_services\<close> raises
  \<open>KeyError\<close>, the entry is skipped with a warning, and \<open>access\<close> is still active after
  the second call.
\<close>

theorem discover_without_id_counterexample:
  "discover demo_services nameless_backend demo_vehicle = (Inr (), nameless_once)
   \<and> service_active ''access'' nameless_once = Inr (PBool True)
   \<and> nameless_backend (calls nameless_once) (url nameless_once) = Inr listing_without_id
   \<and> map_of (capabilities listing_without_id) ''access'' = Some (PDict [(''isEnabled'', PBool False)])
   \<and> discover demo_services nameless_backend nameless_once = (Inr (), nameless_twice)
   \<and> service_active ''access'' nameless_twice = Inr (PBool True)"
proof -
  have first: "discover demo_services nameless_backend demo_vehicle = (Inr (), nameless_once)"
    by (simp add: nameless_once_def demo_eval)
  have c1: "calls nameless_once = [GetOperationList ''WVWZZZ3HZPK002581'']"
    by (simp add: nameless_once_def demo_eval)
  have active: "service_active ''access'' nameless_once = Inr (PBool True)"
    by (simp add: nameless_once_def demo_eval)
  have reply: "nameless_backend (calls nameless_once) (url nameless_once) = Inr listing_without_id"
    by (simp add: c1 nameless_backend_def)
  have caps: "map_of (capabilities listing_without_id) ''access''
                = Some (PDict [(''isEnabled'', PBool False)])"
    by (simp add: listing_without_id_def)
  have second: "discover demo_services nameless_backend nameless_once = (Inr (), nameless_twice)"
    unfolding nameless_twice_def
    by (simp add: nameless_once_def demo_eval)
  have still: "service_active ''access'' nameless_twice = Inr (PBool True)"
    by (simp add: nameless_twice_def nameless_once_def demo_eval)
  show ?thesis
    by (rule conjI [OF first conjI [OF active conjI [OF reply conjI [OF caps conjI [OF second still]]]]])
qed

end
